theory Spec2Isabelle
  imports Main "HOL-Library.Sublist" "HOL-Library.AList"
begin

section \<open>Strings: \<open>os.path.splitext\<close> and \<open>str.endswith\<close>\<close>

text \<open>
  Object keys, bucket names and view names are Python strings. The orchestrator derives
  names with \<^verbatim>\<open>os.path.splitext\<close> (POSIX flavour: separator \<open>/\<close>, no alternative
  separator) and classifies keys with \<^verbatim>\<open>str.endswith\<close>.

  \<^verbatim>\<open>
  def _splitext(p, sep, altsep, extsep):
      sepIndex = p.rfind(sep)
      dotIndex = p.rfind(extsep)
      if dotIndex > sepIndex:
          # skip all leading dots
          filenameIndex = sepIndex + 1
          while filenameIndex < dotIndex:
              if p[filenameIndex:filenameIndex+1] != extsep:
                  return p[:dotIndex], p[dotIndex:]
              filenameIndex += 1
      return p, p[:0]
  \<close>
\<close>

definition rfind :: "char \<Rightarrow> string \<Rightarrow> int" where
  "rfind c p =
     (if c \<in> set p then int (length p) - 1 - int (length (takeWhile (\<lambda>x. x \<noteq> c) (rev p)))
      else - 1)"

function splitext_scan :: "string \<Rightarrow> nat \<Rightarrow> nat \<Rightarrow> bool" where
  "splitext_scan p filenameIndex dotIndex =
     (if filenameIndex < dotIndex
      then (if take 1 (drop filenameIndex p) \<noteq> ''.'' then True
            else splitext_scan p (Suc filenameIndex) dotIndex)
      else False)"
  by pat_completeness auto
termination
  by (relation "measure (\<lambda>(p, i, d). d - i)") auto

declare splitext_scan.simps [simp del]

definition splitext :: "string \<Rightarrow> string \<times> string" where
  "splitext p =
     (let sepIndex = rfind CHR ''/'' p;
          dotIndex = rfind CHR ''.'' p
      in if dotIndex > sepIndex \<and> splitext_scan p (nat (sepIndex + 1)) (nat dotIndex)
         then (take (nat dotIndex) p, drop (nat dotIndex) p)
         else (p, []))"

definition endswith :: "string \<Rightarrow> string \<Rightarrow> bool" where
  "endswith s suffix_str \<longleftrightarrow> suffix suffix_str s"

text \<open>Line 250 of \<^verbatim>\<open>ingest_file_to_datalake\<close>:
  \<^verbatim>\<open>parquet_object_name = f'{os.path.splitext(prefix)[0]}.parquet'\<close>.\<close>

definition parquet_object_name :: "string \<Rightarrow> string" where
  "parquet_object_name prefix_key = fst (splitext prefix_key) @ ''.parquet''"


section \<open>The collaborators: object store, ZIP reader, tabular engine\<close>

text \<open>
  The orchestrator only talks to collaborators. Their state is the \<open>world\<close>: the buckets
  and objects of the store, the views registered in the engine session, and a trace of
  every collaborator call with its outcome (the call-count instrumentation of the spec).
  What the bytes of an object decode to is part of the object: \<open>Raw\<close> bytes (CSV text or
  anything else), a ZIP container with its entries in directory order, or a columnar
  artifact holding the table that was written. A table (Spark DataFrame) is not
  interpreted: it is the format and the options the reader was given and the objects
  it found under the path.
\<close>

datatype blob =
    Raw string
  | Archive "(string \<times> blob) list"
  | Columnar "string \<times> (string \<times> string) list \<times> (string \<times> blob) list"

type_synonym dataframe = "string \<times> (string \<times> string) list \<times> (string \<times> blob) list"

datatype error =
    ArchiveUnreadable
  | StorageReadError
  | StorageWriteError
  | EngineLoadError
  | EnginePersistError
  | ConfigurationError

datatype call =
    BucketExists string
  | MakeBucket string
  | ObjectExists string string
  | GetObject string string
  | PutObject string string blob
  | ListObjects string string
  | ZipOpen
  | ZipRead string
  | ReaderLoad string "(string \<times> string) list" string
  | ReadParquet string
  | WriteParquet string dataframe
  | CreateOrReplaceTempView string dataframe

datatype outcome = Returned | Raised error

type_synonym event = "call \<times> outcome"

text \<open>
  \<open>faults\<close> is the environment's choice of which calls fail: given the history and the
  call about to be made, it may name an error that the call raises (network failure,
  permission, engine rejection). Calls also fail for the reasons the store and engine
  have themselves (missing key, missing path).
\<close>

record world =
  buckets :: "string list"
  objects :: "((string \<times> string) \<times> blob) list"
  views :: "string \<rightharpoonup> dataframe"
  trace :: "event list"
  faults :: "event list \<Rightarrow> call \<Rightarrow> error option"

type_synonym 'a action = "world \<Rightarrow> (error + 'a) \<times> world"

text \<open>Sequencing with exceptions: an error ends the computation, the world it left stays.\<close>

definition returnE :: "'a \<Rightarrow> 'a action" where
  "returnE x w = (Inr x, w)"

definition bindE :: "'a action \<Rightarrow> ('a \<Rightarrow> 'b action) \<Rightarrow> 'b action" where
  "bindE m f w = (case m w of (Inl e, w') \<Rightarrow> (Inl e, w') | (Inr x, w') \<Rightarrow> f x w')"

text \<open>
  One collaborator call: it raises the injected fault if there is one, otherwise does
  what \<open>body\<close> says; either way the call and its outcome are appended to the trace.
  A call that raises leaves the rest of the world as it was.
\<close>

definition collaborator :: "call \<Rightarrow> (world \<Rightarrow> error + ('a \<times> world)) \<Rightarrow> 'a action" where
  "collaborator c body w =
     (case faults w (trace w) c of
        Some e \<Rightarrow> (Inl e, w\<lparr>trace := trace w @ [(c, Raised e)]\<rparr>)
      | None \<Rightarrow>
          (case body w of
             Inl e \<Rightarrow> (Inl e, w\<lparr>trace := trace w @ [(c, Raised e)]\<rparr>)
           | Inr (x, w') \<Rightarrow> (Inr x, w'\<lparr>trace := trace w @ [(c, Returned)]\<rparr>)))"

subsection \<open>Object store\<close>

text \<open>
  Modelled from the spec: \<^verbatim>\<open>minio_spark.bucket.MinioBucket\<close>,
  \<^verbatim>\<open>minio_spark.object.MinioObject\<close> and \<^verbatim>\<open>minio_spark.client.MinioClient\<close> are not
  among the sources. The spec gives the store interface \<^verbatim>\<open>bucket_exists\<close>,
  \<^verbatim>\<open>make_bucket\<close>, \<^verbatim>\<open>list_objects(bucket, prefix)\<close> ("all objects under prefix"),
  \<^verbatim>\<open>get_object\<close>, \<^verbatim>\<open>put_object\<close>; an object reference "identifies a (bucket, key)
  pair and answers existence", a bucket reference "answers existence and creation"
  (create-if-absent).
\<close>

record minio_object =
  bucket_name :: string
  name :: string

definition bucket_exists :: "string \<Rightarrow> bool action" where
  "bucket_exists b = collaborator (BucketExists b) (\<lambda>w. Inr (b \<in> set (buckets w), w))"

definition make_bucket :: "string \<Rightarrow> unit action" where
  "make_bucket b = collaborator (MakeBucket b)
     (\<lambda>w. Inr ((), if b \<in> set (buckets w) then w else w\<lparr>buckets := buckets w @ [b]\<rparr>))"

definition object_exists :: "string \<Rightarrow> string \<Rightarrow> bool action" where
  "object_exists b k = collaborator (ObjectExists b k)
     (\<lambda>w. Inr (map_of (objects w) (b, k) \<noteq> None, w))"

definition get_object :: "string \<Rightarrow> string \<Rightarrow> blob action" where
  "get_object b k = collaborator (GetObject b k)
     (\<lambda>w. case map_of (objects w) (b, k) of
             None \<Rightarrow> Inl StorageReadError
           | Some x \<Rightarrow> Inr (x, w))"

definition put_object :: "string \<Rightarrow> string \<Rightarrow> blob \<Rightarrow> unit action" where
  "put_object b k x = collaborator (PutObject b k x)
     (\<lambda>w. if b \<in> set (buckets w)
          then Inr ((), w\<lparr>objects := AList.update (b, k) x (objects w)\<rparr>)
          else Inl StorageWriteError)"

definition list_objects :: "string \<Rightarrow> string \<Rightarrow> string list action" where
  "list_objects b p = collaborator (ListObjects b p)
     (\<lambda>w. if b \<in> set (buckets w)
          then Inr (map (snd \<circ> fst) (filter (\<lambda>ob. fst (fst ob) = b \<and> prefix p (snd (fst ob))) (objects w)), w)
          else Inl StorageReadError)"

subsection \<open>ZIP reader (\<^verbatim>\<open>zipfile.ZipFile\<close>)\<close>

text \<open>
  \<^verbatim>\<open>ZipFile(buffer)\<close> raises unless the bytes are a ZIP container; \<^verbatim>\<open>namelist()\<close> gives
  every directory entry's name in order, duplicates included; \<^verbatim>\<open>read(name)\<close> gives the
  data of the last entry of that name.
\<close>

definition zip_open :: "blob \<Rightarrow> (string \<times> blob) list action" where
  "zip_open zip_buffer = collaborator ZipOpen
     (\<lambda>w. case zip_buffer of Archive entries \<Rightarrow> Inr (entries, w) | _ \<Rightarrow> Inl ArchiveUnreadable)"

definition namelist :: "(string \<times> blob) list \<Rightarrow> string list" where
  "namelist zip_ref = map fst zip_ref"

definition zip_read :: "(string \<times> blob) list \<Rightarrow> string \<Rightarrow> blob action" where
  "zip_read zip_ref file_name = collaborator (ZipRead file_name)
     (\<lambda>w. case map_of (rev zip_ref) file_name of
             None \<Rightarrow> Inl ArchiveUnreadable
           | Some file_data \<Rightarrow> Inr (file_data, w))"

subsection \<open>Tabular engine\<close>

text \<open>
  The engine resolves \<^verbatim>\<open>s3a://bucket/key\<close> to the bucket (up to the first \<open>/\<close>) and the
  key (the rest). A load reads the object at the key and every object under \<open>key/\<close>,
  and raises when there is none (path does not exist). A columnar write replaces the
  object at the key (mode overwrite); a columnar read gives back the table written.
  \<^verbatim>\<open>createOrReplaceTempView\<close> binds the name to the table, replacing an earlier binding.
\<close>

definition s3a_resolve :: "string \<Rightarrow> (string \<times> string) option" where
  "s3a_resolve path =
     (if prefix ''s3a://'' path
      then (let rest = drop 6 path
            in Some (takeWhile (\<lambda>c. c \<noteq> CHR ''/'') rest,
                     drop 1 (dropWhile (\<lambda>c. c \<noteq> CHR ''/'') rest)))
      else None)"

definition files_under :: "string \<Rightarrow> string \<Rightarrow> world \<Rightarrow> (string \<times> blob) list" where
  "files_under b k w =
     map (\<lambda>ob. (snd (fst ob), snd ob))
       (filter (\<lambda>ob. fst (fst ob) = b \<and> (snd (fst ob) = k \<or> prefix (k @ ''/'') (snd (fst ob))))
          (objects w))"

definition reader_load :: "string \<times> (string \<times> string) list \<Rightarrow> string \<Rightarrow> dataframe action" where
  "reader_load reader path = collaborator (ReaderLoad (fst reader) (snd reader) path)
     (\<lambda>w. case s3a_resolve path of
             None \<Rightarrow> Inl EngineLoadError
           | Some (b, k) \<Rightarrow>
               (if files_under b k w = [] then Inl EngineLoadError
                else Inr ((fst reader, snd reader, files_under b k w), w)))"

definition read_parquet :: "string \<Rightarrow> dataframe action" where
  "read_parquet path = collaborator (ReadParquet path)
     (\<lambda>w. case s3a_resolve path of
             None \<Rightarrow> Inl EngineLoadError
           | Some (b, k) \<Rightarrow>
               (case map_of (objects w) (b, k) of
                  Some (Columnar df) \<Rightarrow> Inr (df, w)
                | _ \<Rightarrow> Inl EngineLoadError))"

definition write_parquet :: "string \<Rightarrow> dataframe \<Rightarrow> unit action" where
  "write_parquet path df = collaborator (WriteParquet path df)
     (\<lambda>w. case s3a_resolve path of
             None \<Rightarrow> Inl EnginePersistError
           | Some (b, k) \<Rightarrow>
               (if b \<in> set (buckets w)
                then Inr ((), w\<lparr>objects := AList.update (b, k) (Columnar df) (objects w)\<rparr>)
                else Inl EnginePersistError))"

definition create_or_replace_temp_view :: "string \<Rightarrow> dataframe \<Rightarrow> unit action" where
  "create_or_replace_temp_view view_name df = collaborator (CreateOrReplaceTempView view_name df)
     (\<lambda>w. Inr ((), w\<lparr>views := (views w)(view_name \<mapsto> df)\<rparr>))"

text \<open>The reader builder: \<^verbatim>\<open>spark.read.format(f)\<close>, then \<^verbatim>\<open>.option(k, v)\<close> calls in order.\<close>

definition reader_format :: "string \<Rightarrow> string \<times> (string \<times> string) list" where
  "reader_format format_source = (format_source, [])"

definition reader_option ::
  "string \<times> (string \<times> string) list \<Rightarrow> string \<Rightarrow> string \<Rightarrow> string \<times> (string \<times> string) list" where
  "reader_option reader k v = (fst reader, snd reader @ [(k, v)])"

text \<open>The value the engine uses for an option: the last one set under that key.\<close>

definition effective_option :: "(string \<times> string) list \<Rightarrow> string \<Rightarrow> string option" where
  "effective_option opts k = map_of (rev opts) k"


section \<open>The class \<^verbatim>\<open>MinIOSpark\<close> (\<^verbatim>\<open>src/minio_spark/datalake.py\<close>)\<close>

text \<open>
  The methods keep their names. Where a Python name is taken in HOL, the parameter
  \<^verbatim>\<open>bucket_name\<close> is written \<open>b\<close> (the record field has the name), \<^verbatim>\<open>prefix\<close> is written
  \<open>p\<close>, and a variable \<^verbatim>\<open>minio_object\<close> is written \<open>minio_obj\<close>. An optional argument
  that defaults to \<^verbatim>\<open>None\<close> is an \<open>option\<close>.
\<close>

subsection \<open>\<^verbatim>\<open>extract_and_upload_zip\<close>\<close>

text \<open>
  \<^verbatim>\<open>
  zip_buffer = BytesIO(self.client.get_object(minio_object.bucket_name, minio_object.name).read())
  if extract_to_bucket:
      destination_prefix = minio_object.bucket_name
  else:
      destination_prefix = (destination_object.object_name if destination_object
                            else f'{os.path.splitext(minio_object.name)[0]}')
  extracted_objects = []
  with zipfile.ZipFile(zip_buffer, 'r') as zip_ref:
      for file_name in zip_ref.namelist():
          file_data = zip_ref.read(file_name)
          file_path = f'{destination_prefix}/{file_name}'
          self.client.put_object(minio_object.bucket_name, file_path, BytesIO(file_data), len(file_data))
          extracted_objects.append(MinioObject(self.client, minio_object.bucket_name, file_path))
  return extracted_objects
  \<close>
  The loop over \<^verbatim>\<open>zip_ref.namelist()\<close> is \<open>upload_entries\<close>. (\<^verbatim>\<open>put_object\<close>'s length
  argument is the length of the data it is given and is left out.)
\<close>

fun upload_entries ::
  "minio_object \<Rightarrow> string \<Rightarrow> (string \<times> blob) list \<Rightarrow> string list \<Rightarrow> minio_object list
     \<Rightarrow> minio_object list action" where
  "upload_entries minio_obj destination_prefix zip_ref [] extracted_objects w =
     (Inr extracted_objects, w)"
| "upload_entries minio_obj destination_prefix zip_ref (file_name # rest) extracted_objects w =
     bindE (zip_read zip_ref file_name) (\<lambda>file_data.
       let file_path = destination_prefix @ ''/'' @ file_name
       in bindE (put_object (bucket_name minio_obj) file_path file_data) (\<lambda>_.
            upload_entries minio_obj destination_prefix zip_ref rest
              (extracted_objects @ [\<lparr>bucket_name = bucket_name minio_obj, name = file_path\<rparr>]))) w"

text \<open>
  Modelled from the spec: \<^verbatim>\<open>destination_object.object_name\<close> is read as the key of
  the destination object ("use an explicit destination object's key as prefix");
  the class \<^verbatim>\<open>MinioObject\<close> is not among the sources.
\<close>

definition destination_prefix_of :: "minio_object \<Rightarrow> minio_object option \<Rightarrow> bool \<Rightarrow> string" where
  "destination_prefix_of minio_obj destination_object extract_to_bucket =
     (if extract_to_bucket then bucket_name minio_obj
      else (case destination_object of
              Some d \<Rightarrow> name d
            | None \<Rightarrow> fst (splitext (name minio_obj))))"

definition extract_and_upload_zip ::
  "minio_object \<Rightarrow> minio_object option \<Rightarrow> bool \<Rightarrow> minio_object list action" where
  "extract_and_upload_zip minio_obj destination_object extract_to_bucket =
     bindE (get_object (bucket_name minio_obj) (name minio_obj)) (\<lambda>zip_buffer.
       let destination_prefix = destination_prefix_of minio_obj destination_object extract_to_bucket
       in bindE (zip_open zip_buffer) (\<lambda>zip_ref.
            upload_entries minio_obj destination_prefix zip_ref (namelist zip_ref) []))"

subsection \<open>\<^verbatim>\<open>extract_and_upload_zip_by_prefix\<close>\<close>

text \<open>
  \<^verbatim>\<open>
  objects = self.client.list_objects(bucket_name, prefix=prefix)
  for obj in objects:
      if obj.object_name.endswith('.zip'):
          minio_object = MinioObject(self.client, bucket_name, obj.object_name)
          self.extract_and_upload_zip(minio_object, extract_to_bucket=extract_to_bucket)
  \<close>
  There is no handler in the loop: an exception of one expansion leaves the loop and the
  method.
\<close>

fun expand_listed :: "string \<Rightarrow> bool \<Rightarrow> string list \<Rightarrow> unit action" where
  "expand_listed b extract_to_bucket [] w = (Inr (), w)"
| "expand_listed b extract_to_bucket (object_name # rest) w =
     (if endswith object_name ''.zip''
      then bindE (extract_and_upload_zip \<lparr>bucket_name = b, name = object_name\<rparr> None extract_to_bucket)
             (\<lambda>_. expand_listed b extract_to_bucket rest) w
      else expand_listed b extract_to_bucket rest w)"

definition extract_and_upload_zip_by_prefix :: "string \<Rightarrow> string \<Rightarrow> bool \<Rightarrow> unit action" where
  "extract_and_upload_zip_by_prefix b p extract_to_bucket =
     bindE (list_objects b p) (\<lambda>objs. expand_listed b extract_to_bucket objs)"

subsection \<open>\<^verbatim>\<open>read_csv_to_dataframe\<close>, \<^verbatim>\<open>read_parquet_to_dataframe\<close>, \<^verbatim>\<open>dataframe_to_parquet\<close>\<close>

text \<open>
  \<^verbatim>\<open>
  path = f's3a://{bucket_name}/{prefix}'
  reader = self.spark.read.format(format_source)
  if option_args is None:
      option_args = {'header': 'true', 'inferSchema': 'true'}
  for key, value in option_args.items():
      reader = reader.option(key, value)
  reader = reader.option('delimiter', delimiter)
  df = reader.load(path)
  \<close>
  A dictionary is the list of its items in order. The columnar read and write use the
  same path scheme, the write with \<^verbatim>\<open>mode('overwrite')\<close>.
\<close>

definition s3a_path :: "string \<Rightarrow> string \<Rightarrow> string" where
  "s3a_path b k = ''s3a://'' @ b @ ''/'' @ k"

definition default_option_args :: "(string \<times> string) list" where
  "default_option_args = [(''header'', ''true''), (''inferSchema'', ''true'')]"

definition read_csv_to_dataframe ::
  "string \<Rightarrow> string \<Rightarrow> string \<Rightarrow> string \<Rightarrow> (string \<times> string) list option \<Rightarrow> dataframe action" where
  "read_csv_to_dataframe b p delimiter format_source option_args =
     (let path = s3a_path b p;
          reader = reader_format format_source;
          option_args = (case option_args of None \<Rightarrow> default_option_args | Some given \<Rightarrow> given);
          reader = foldl (\<lambda>r kv. reader_option r (fst kv) (snd kv)) reader option_args;
          reader = reader_option reader ''delimiter'' delimiter
      in reader_load reader path)"

definition read_parquet_to_dataframe :: "minio_object \<Rightarrow> dataframe action" where
  "read_parquet_to_dataframe minio_obj =
     read_parquet (s3a_path (bucket_name minio_obj) (name minio_obj))"

definition dataframe_to_parquet :: "dataframe \<Rightarrow> minio_object \<Rightarrow> unit action" where
  "dataframe_to_parquet df minio_obj =
     write_parquet (s3a_path (bucket_name minio_obj) (name minio_obj)) df"

subsection \<open>\<^verbatim>\<open>ingest_file_to_datalake\<close>\<close>

text \<open>
  \<^verbatim>\<open>
  parquet_object_name = f'{os.path.splitext(prefix)[0]}.parquet'
  destination_bucket = MinioBucket(self.client, destination_bucket_name)
  if not destination_bucket.exists():
      destination_bucket.make()
  parquet_minio_object = MinioObject(self.client, destination_bucket_name, parquet_object_name)
  if parquet_minio_object.exists():
      df = self.read_parquet_to_dataframe(parquet_minio_object)
  else:
      minio_object = self.get_object(bucket_name, prefix)
      if minio_object.name.endswith('.zip'):
          self.extract_and_upload_zip(minio_object, extract_to_bucket=True)
          extracted_folder_object = MinioObject(self.client, bucket_name,
                                                os.path.splitext(minio_object.name)[0])
          df = self.read_csv_to_dataframe(extracted_folder_object.bucket_name,
                                          extracted_folder_object.name, delimiter=delimiter,
                                          format_source='csv', option_args=option_args)
      else:
          df = self.read_csv_to_dataframe(bucket_name, prefix, delimiter=delimiter,
                                          option_args=option_args)
      self.dataframe_to_parquet(df, parquet_minio_object)
      df = self.read_parquet_to_dataframe(parquet_minio_object)
  if temp_view_name is None:
      temp_view_name = os.path.splitext(prefix)[0]
  df.createOrReplaceTempView(temp_view_name)
  return df
  \<close>
  \<^verbatim>\<open>self.get_object\<close> only builds the object reference; nothing is fetched by it.
\<close>

definition ingest_file_to_datalake ::
  "string \<Rightarrow> string \<Rightarrow> string \<Rightarrow> string option \<Rightarrow> string \<Rightarrow> (string \<times> string) list option
     \<Rightarrow> dataframe action" where
  "ingest_file_to_datalake b p destination_bucket_name temp_view_name delimiter option_args =
     (let parquet_minio_object =
            \<lparr>bucket_name = destination_bucket_name, name = parquet_object_name p\<rparr>
      in
      bindE (bucket_exists destination_bucket_name) (\<lambda>bucket_there.
      bindE (if \<not> bucket_there then make_bucket destination_bucket_name else returnE ()) (\<lambda>_.
      bindE (object_exists (bucket_name parquet_minio_object) (name parquet_minio_object)) (\<lambda>cached.
      bindE
        (if cached then read_parquet_to_dataframe parquet_minio_object
         else
           (let minio_obj = \<lparr>bucket_name = b, name = p\<rparr>
            in bindE
                 (if endswith (name minio_obj) ''.zip''
                  then bindE (extract_and_upload_zip minio_obj None True) (\<lambda>_.
                         let extracted_folder_object =
                               \<lparr>bucket_name = b, name = fst (splitext (name minio_obj))\<rparr>
                         in read_csv_to_dataframe (bucket_name extracted_folder_object)
                              (name extracted_folder_object) delimiter ''csv'' option_args)
                  else read_csv_to_dataframe b p delimiter ''csv'' option_args)
                 (\<lambda>df. bindE (dataframe_to_parquet df parquet_minio_object) (\<lambda>_.
                         read_parquet_to_dataframe parquet_minio_object))))
        (\<lambda>df.
           let temp_view_name =
                 (case temp_view_name of None \<Rightarrow> fst (splitext p) | Some given \<Rightarrow> given)
           in bindE (create_or_replace_temp_view temp_view_name df) (\<lambda>_. returnE df))))))"

section \<open>Observing a call\<close>

text \<open>The collaborator calls made between two worlds, and the kinds of call.\<close>

definition calls_since :: "world \<Rightarrow> world \<Rightarrow> event list" where
  "calls_since w w' = drop (length (trace w)) (trace w')"

fun is_extraction :: "call \<Rightarrow> bool" where
  "is_extraction (GetObject b k) = True"
| "is_extraction (PutObject b k x) = True"
| "is_extraction (ListObjects b p) = True"
| "is_extraction ZipOpen = True"
| "is_extraction (ZipRead n) = True"
| "is_extraction c = False"

fun is_csv_read :: "call \<Rightarrow> bool" where
  "is_csv_read (ReaderLoad f opts path) = True"
| "is_csv_read c = False"

fun is_persist :: "call \<Rightarrow> bool" where
  "is_persist (WriteParquet path df) = True"
| "is_persist c = False"

definition no_faults :: "event list \<Rightarrow> call \<Rightarrow> error option" where
  "no_faults history c = None"


text \<open>
  The shape of a run that has no handler: every call before the last returned, and the
  run either returned after calls that all returned, or raised the error of its last call.
\<close>

definition run_shape :: "(error + 'a) \<Rightarrow> event list \<Rightarrow> bool" where
  "run_shape r evs =
     (case r of
        Inr x \<Rightarrow> list_all (\<lambda>ev. snd ev = Returned) evs
      | Inl e \<Rightarrow> evs \<noteq> [] \<and> list_all (\<lambda>ev. snd ev = Returned) (butlast evs)
                 \<and> snd (last evs) = Raised e)"



text \<open>
  Properties of an action that compose along \<open>bindE\<close>: \<open>emits K\<close> says that the action
  only makes calls of kind \<open>K\<close>, appends them to the trace in the shape of a run, and
  leaves the fault oracle alone; \<open>keeps sel\<close> that it leaves a component of the world
  unchanged; \<open>fail_keeps sel\<close> the same for runs that raise; \<open>publishes n\<close> that a run
  that returns a table has bound the view \<open>n\<close> to it.
\<close>

definition emits :: "(call \<Rightarrow> bool) \<Rightarrow> 'a action \<Rightarrow> bool" where
  "emits K m \<longleftrightarrow>
     (\<forall>w. faults (snd (m w)) = faults w \<and>
          (\<exists>evs. trace (snd (m w)) = trace w @ evs \<and> list_all (\<lambda>ev. K (fst ev)) evs
                 \<and> run_shape (fst (m w)) evs))"

definition keeps :: "(world \<Rightarrow> 'b) \<Rightarrow> 'a action \<Rightarrow> bool" where
  "keeps sel m \<longleftrightarrow> (\<forall>w. sel (snd (m w)) = sel w)"

definition fail_keeps :: "(world \<Rightarrow> 'b) \<Rightarrow> 'a action \<Rightarrow> bool" where
  "fail_keeps sel m \<longleftrightarrow> (\<forall>w e. fst (m w) = Inl e \<longrightarrow> sel (snd (m w)) = sel w)"




text \<open>The calls of the cache-hit path: ensuring the bucket, the cache check, the columnar
  read of the artifact, the view registration.\<close>

fun cache_hit_call :: "string \<Rightarrow> string \<Rightarrow> call \<Rightarrow> bool" where
  "cache_hit_call dst k (BucketExists b) = (b = dst)"
| "cache_hit_call dst k (MakeBucket b) = (b = dst)"
| "cache_hit_call dst k (ObjectExists b k') = (b = dst \<and> k' = k)"
| "cache_hit_call dst k (ReadParquet path) = (path = s3a_path dst k)"
| "cache_hit_call dst k (CreateOrReplaceTempView n df) = True"
| "cache_hit_call dst k c = False"




section \<open>Worlds used as examples\<close>

text \<open>A source bucket without the source object, and no destination bucket yet.\<close>

definition missing_source_world :: world where
  "missing_source_world =
     \<lparr>buckets = [''raw''], objects = [], views = Map.empty, trace = [], faults = no_faults\<rparr>"


text \<open>The canonical artifact is there, the source object is not.\<close>

definition cached_world :: world where
  "cached_world =
     \<lparr>buckets = [''raw'', ''stage''],
      objects = [((''stage'', ''batch.parquet''),
                  Columnar (''csv'', [(''delimiter'', '','')], [(''batch.csv'', Raw ''id,qty'')]))],
      views = Map.empty, trace = [], faults = no_faults\<rparr>"

text \<open>The end-to-end scenario: \<open>raw/batch.zip\<close> holds \<open>rows.csv\<close> with three rows;
  there is no bucket \<open>stage\<close>.\<close>

definition scenario_world :: world where
  "scenario_world =
     \<lparr>buckets = [''raw''],
      objects = [((''raw'', ''batch.zip''),
                  Archive [(''rows.csv'',
                            Raw (''1,a'' @ [CHR 0x0A] @ ''2,b'' @ [CHR 0x0A] @ ''3,c'' @ [CHR 0x0A]))])],
      views = Map.empty, trace = [], faults = no_faults\<rparr>"

text \<open>The same archive in a bucket that is named like the archive's base name.\<close>

definition coinciding_world :: world where
  "coinciding_world =
     \<lparr>buckets = [''batch''],
      objects = [((''batch'', ''batch.zip''),
                  Archive [(''rows.csv'',
                            Raw (''1,a'' @ [CHR 0x0A] @ ''2,b'' @ [CHR 0x0A] @ ''3,c'' @ [CHR 0x0A]))])],
      views = Map.empty, trace = [], faults = no_faults\<rparr>"


text \<open>An archive with a nested entry name in bucket \<open>B\<close>.\<close>

definition flatten_world :: world where
  "flatten_world =
     \<lparr>buckets = [''B''],
      objects = [((''B'', ''pack.zip''),
                  Archive [(''a.csv'', Raw ''A''), (''sub/b.csv'', Raw ''BB'')])],
      views = Map.empty, trace = [], faults = no_faults\<rparr>"


section \<open>Names\<close>







lemmas splitext_eval = splitext_def rfind_def splitext_scan.simps


section \<open>Effects of the collaborator calls\<close>

lemma bindE_elim:
  assumes "bindE m f w = (r, w')"
  obtains (fail) e where "m w = (Inl e, w')" "r = Inl e"
        | (ok) x w1 where "m w = (Inr x, w1)" "f x w1 = (r, w')"
  using assms by (auto simp: bindE_def split: prod.splits sum.splits)

lemma returnE_elim:
  assumes "returnE x w = (r, w')"
  obtains "r = Inr x" "w' = w"
  using assms by (auto simp: returnE_def)

lemma collaborator_elim:
  assumes "collaborator c body w = (r, w')"
  obtains (raised) e where "r = Inl e" "w' = w\<lparr>trace := trace w @ [(c, Raised e)]\<rparr>"
        | (returned) x w1 where "faults w (trace w) c = None" "body w = Inr (x, w1)" "r = Inr x"
            "w' = w1\<lparr>trace := trace w @ [(c, Returned)]\<rparr>"
  using assms by (auto simp: collaborator_def split: option.splits sum.splits prod.splits)

text \<open>Effects of the primitives, field by field.\<close>

lemma bucket_exists_elim:
  assumes "bucket_exists b w = (r, w')"
  obtains (raised) e where "r = Inl e" "trace w' = trace w @ [(BucketExists b, Raised e)]"
            "buckets w' = buckets w" "objects w' = objects w" "views w' = views w" "faults w' = faults w"
        | (returned) "r = Inr (b \<in> set (buckets w))" "trace w' = trace w @ [(BucketExists b, Returned)]"
            "buckets w' = buckets w" "objects w' = objects w" "views w' = views w" "faults w' = faults w"
  using assms unfolding bucket_exists_def by (auto elim!: collaborator_elim)

lemma make_bucket_elim:
  assumes "make_bucket b w = (r, w')"
  obtains (raised) e where "r = Inl e" "trace w' = trace w @ [(MakeBucket b, Raised e)]"
            "buckets w' = buckets w" "objects w' = objects w" "views w' = views w" "faults w' = faults w"
        | (returned) "r = Inr ()" "trace w' = trace w @ [(MakeBucket b, Returned)]"
            "buckets w' = (if b \<in> set (buckets w) then buckets w else buckets w @ [b])"
            "objects w' = objects w" "views w' = views w" "faults w' = faults w"
  using assms unfolding make_bucket_def by (auto elim!: collaborator_elim)

lemma object_exists_elim:
  assumes "object_exists b k w = (r, w')"
  obtains (raised) e where "r = Inl e" "trace w' = trace w @ [(ObjectExists b k, Raised e)]"
            "buckets w' = buckets w" "objects w' = objects w" "views w' = views w" "faults w' = faults w"
        | (returned) "r = Inr (map_of (objects w) (b, k) \<noteq> None)"
            "trace w' = trace w @ [(ObjectExists b k, Returned)]"
            "buckets w' = buckets w" "objects w' = objects w" "views w' = views w" "faults w' = faults w"
  using assms unfolding object_exists_def by (auto elim!: collaborator_elim)

lemma read_parquet_elim:
  assumes "read_parquet path w = (r, w')"
  obtains (raised) e where "r = Inl e" "trace w' = trace w @ [(ReadParquet path, Raised e)]"
            "buckets w' = buckets w" "objects w' = objects w" "views w' = views w" "faults w' = faults w"
        | (returned) df b k where "r = Inr df" "s3a_resolve path = Some (b, k)"
            "map_of (objects w) (b, k) = Some (Columnar df)"
            "trace w' = trace w @ [(ReadParquet path, Returned)]"
            "buckets w' = buckets w" "objects w' = objects w" "views w' = views w" "faults w' = faults w"
  using assms unfolding read_parquet_def collaborator_def
  by (auto split: option.splits blob.splits sum.splits prod.splits)

lemma create_view_elim:
  assumes "create_or_replace_temp_view n df w = (r, w')"
  obtains (raised) e where "r = Inl e" "trace w' = trace w @ [(CreateOrReplaceTempView n df, Raised e)]"
            "buckets w' = buckets w" "objects w' = objects w" "views w' = views w" "faults w' = faults w"
        | (returned) "r = Inr ()" "trace w' = trace w @ [(CreateOrReplaceTempView n df, Returned)]"
            "buckets w' = buckets w" "objects w' = objects w" "views w' = (views w)(n \<mapsto> df)" "faults w' = faults w"
  using assms unfolding create_or_replace_temp_view_def by (auto elim!: collaborator_elim)




lemma reader_load_elim:
  assumes "reader_load rd path w = (r, w')"
  obtains (raised) e where "r = Inl e" "trace w' = trace w @ [(ReaderLoad (fst rd) (snd rd) path, Raised e)]"
            "buckets w' = buckets w" "objects w' = objects w" "views w' = views w" "faults w' = faults w"
        | (returned) df where "r = Inr df"
            "trace w' = trace w @ [(ReaderLoad (fst rd) (snd rd) path, Returned)]"
            "buckets w' = buckets w" "objects w' = objects w" "views w' = views w" "faults w' = faults w"
  using assms unfolding reader_load_def collaborator_def
  by (auto split: option.splits sum.splits prod.splits if_splits)

lemma reader_fold:
  "foldl (\<lambda>r kv. reader_option r (fst kv) (snd kv)) rd xs = (fst rd, snd rd @ xs)"
  by (induction xs arbitrary: rd) (auto simp: reader_option_def)


lemma read_csv_unfold:
  "read_csv_to_dataframe b p d fmt oa =
     reader_load (fmt, (case oa of None \<Rightarrow> default_option_args | Some given \<Rightarrow> given) @ [(''delimiter'', d)])
       (s3a_path b p)"
proof -
  have "reader_option (foldl (\<lambda>r kv. reader_option r (fst kv) (snd kv)) (reader_format fmt) xs) ''delimiter'' d
        = (fmt, xs @ [(''delimiter'', d)])" for xs
    unfolding reader_fold by (simp add: reader_option_def reader_format_def)
  then show ?thesis
    unfolding read_csv_to_dataframe_def Let_def by simp
qed

lemma read_csv_effect:
  assumes "read_csv_to_dataframe b p d fmt oa w = (r, w')"
  shows "\<exists>out. trace w' = trace w @ [(ReaderLoad fmt
                 ((case oa of None \<Rightarrow> default_option_args | Some given \<Rightarrow> given) @ [(''delimiter'', d)])
                 (s3a_path b p), out)]
           \<and> faults w' = faults w \<and> views w' = views w \<and> buckets w' = buckets w \<and> objects w' = objects w
           \<and> run_shape r [(ReaderLoad fmt
                 ((case oa of None \<Rightarrow> default_option_args | Some given \<Rightarrow> given) @ [(''delimiter'', d)])
                 (s3a_path b p), out)]"
  using assms unfolding read_csv_unfold
  by (auto elim!: reader_load_elim simp: run_shape_def)



section \<open>Properties that compose along a run\<close>

lemma run_shape_append:
  assumes "list_all (\<lambda>ev. snd ev = Returned) evs1" "run_shape r evs2"
  shows "run_shape r (evs1 @ evs2)"
  using assms by (cases r) (auto simp: run_shape_def butlast_append)

lemma emits_bind:
  assumes m: "emits K m" and f: "\<And>x. emits K (f x)"
  shows "emits K (bindE m f)"
  unfolding emits_def
proof
  fix w
  obtain r1 w1 where mw: "m w = (r1, w1)" by (cases "m w")
  from m[unfolded emits_def, rule_format, of w] mw obtain evs1 where
    e1: "faults w1 = faults w" "trace w1 = trace w @ evs1" "list_all (\<lambda>ev. K (fst ev)) evs1"
      "run_shape r1 evs1" by auto
  show "faults (snd (bindE m f w)) = faults w \<and>
        (\<exists>evs. trace (snd (bindE m f w)) = trace w @ evs \<and> list_all (\<lambda>ev. K (fst ev)) evs
               \<and> run_shape (fst (bindE m f w)) evs)"
  proof (cases r1)
    case (Inl e)
    with mw e1 show ?thesis by (auto simp: bindE_def run_shape_def)
  next
    case (Inr x)
    from f[of x, unfolded emits_def, rule_format, of w1] obtain evs2 where
      e2: "faults (snd (f x w1)) = faults w1" "trace (snd (f x w1)) = trace w1 @ evs2"
        "list_all (\<lambda>ev. K (fst ev)) evs2" "run_shape (fst (f x w1)) evs2" by auto
    from Inr e1(4) have "list_all (\<lambda>ev. snd ev = Returned) evs1" by (simp add: run_shape_def)
    then have "run_shape (fst (f x w1)) (evs1 @ evs2)" using e2(4) by (rule run_shape_append)
    with Inr mw e1 e2 show ?thesis
      by (intro conjI exI[of _ "evs1 @ evs2"]) (auto simp: bindE_def)
  qed
qed

lemma emits_return: "emits K (returnE x)"
  by (simp add: emits_def returnE_def run_shape_def)

lemma emits_if: "emits K m1 \<Longrightarrow> emits K m2 \<Longrightarrow> emits K (if c then m1 else m2)"
  by simp

lemma emits_collaborator:
  assumes "K c" and "\<And>w x w1. body w = Inr (x, w1) \<Longrightarrow> faults w1 = faults w"
  shows "emits K (collaborator c body)"
  unfolding emits_def collaborator_def using assms
  by (auto simp: run_shape_def split: option.splits sum.splits prod.splits)

lemma emits_prims:
  "K (BucketExists b) \<Longrightarrow> emits K (bucket_exists b)"
  "K (MakeBucket b) \<Longrightarrow> emits K (make_bucket b)"
  "K (ObjectExists b k) \<Longrightarrow> emits K (object_exists b k)"
  "K (GetObject b k) \<Longrightarrow> emits K (get_object b k)"
  "K (PutObject b k x) \<Longrightarrow> emits K (put_object b k x)"
  "K (ListObjects b p) \<Longrightarrow> emits K (list_objects b p)"
  "K ZipOpen \<Longrightarrow> emits K (zip_open x)"
  "K (ZipRead n) \<Longrightarrow> emits K (zip_read z n)"
  "K (ReaderLoad (fst rd) (snd rd) path) \<Longrightarrow> emits K (reader_load rd path)"
  "K (ReadParquet path) \<Longrightarrow> emits K (read_parquet path)"
  "K (WriteParquet path df) \<Longrightarrow> emits K (write_parquet path df)"
  "K (CreateOrReplaceTempView n df) \<Longrightarrow> emits K (create_or_replace_temp_view n df)"
  unfolding bucket_exists_def make_bucket_def object_exists_def get_object_def put_object_def
    list_objects_def zip_open_def zip_read_def reader_load_def read_parquet_def write_parquet_def
    create_or_replace_temp_view_def
  by (rule emits_collaborator; auto split: option.splits if_splits blob.splits)+


lemma upload_entries_Nil: "upload_entries mo dp z [] acc = returnE acc"
  by (rule ext) (simp add: returnE_def)

lemma upload_entries_Cons:
  "upload_entries mo dp z (n # rest) acc =
     bindE (zip_read z n) (\<lambda>file_data.
       bindE (put_object (bucket_name mo) (dp @ ''/'' @ n) file_data) (\<lambda>_.
         upload_entries mo dp z rest (acc @ [\<lparr>bucket_name = bucket_name mo, name = dp @ ''/'' @ n\<rparr>])))"
  by (rule ext) (simp add: Let_def)



lemma emits_upload_entries:
  assumes "\<And>n. K (ZipRead n)" and "\<And>b k x. K (PutObject b k x)"
  shows "emits K (upload_entries mo dp z names acc)"
proof (induction names arbitrary: acc)
  case Nil
  show ?case unfolding upload_entries_Nil by (rule emits_return)
next
  case (Cons n names)
  show ?case unfolding upload_entries_Cons
    by (intro emits_bind emits_prims Cons.IH assms)
qed

lemma emits_extract:
  assumes "\<And>c. is_extraction c \<Longrightarrow> K c"
  shows "emits K (extract_and_upload_zip mo dobj flag)"
  unfolding extract_and_upload_zip_def Let_def
  by (intro emits_bind emits_prims emits_upload_entries assms) simp_all



lemma emits_read_csv:
  assumes "\<And>f opts path. K (ReaderLoad f opts path)"
  shows "emits K (read_csv_to_dataframe b p d fmt oa)"
  unfolding read_csv_unfold by (intro emits_prims assms)

lemma emits_ingest: "emits (\<lambda>c. True) (ingest_file_to_datalake b p dst tv d oa)"
  unfolding ingest_file_to_datalake_def Let_def read_parquet_to_dataframe_def dataframe_to_parquet_def
  by (intro emits_bind emits_if emits_prims emits_return emits_extract emits_read_csv) simp_all


lemma emits_D:
  assumes "emits K m" and "m w = (r, w')"
  shows "faults w' = faults w" and "list_all (\<lambda>ev. K (fst ev)) (calls_since w w')"
    and "run_shape r (calls_since w w')" and "trace w' = trace w @ calls_since w w'"
  using assms(1)[unfolded emits_def, rule_format, of w] assms(2)
  by (auto simp: calls_since_def)



lemma keeps_bind:
  assumes "keeps sel m" and "\<And>x. keeps sel (f x)"
  shows "keeps sel (bindE m f)"
  using assms unfolding keeps_def bindE_def
  by (auto split: prod.splits sum.splits) (metis snd_conv)+

lemma keeps_return: "keeps sel (returnE x)"
  by (simp add: keeps_def returnE_def)

lemma keeps_if: "keeps sel m1 \<Longrightarrow> keeps sel m2 \<Longrightarrow> keeps sel (if c then m1 else m2)"
  by simp

lemma keeps_collaborator:
  assumes "\<And>w t. sel (w\<lparr>trace := t\<rparr>) = sel w"
    and "\<And>w x w1. body w = Inr (x, w1) \<Longrightarrow> sel w1 = sel w"
  shows "keeps sel (collaborator c body)"
  unfolding keeps_def collaborator_def using assms
  by (auto split: option.splits sum.splits prod.splits)

lemma keeps_views_prims:
  "keeps views (bucket_exists b)"
  "keeps views (make_bucket b)"
  "keeps views (object_exists b k)"
  "keeps views (get_object b k)"
  "keeps views (put_object b k x)"
  "keeps views (list_objects b p)"
  "keeps views (zip_open x)"
  "keeps views (zip_read z n)"
  "keeps views (reader_load rd path)"
  "keeps views (read_parquet path)"
  "keeps views (write_parquet path df)"
  unfolding bucket_exists_def make_bucket_def object_exists_def get_object_def put_object_def
    list_objects_def zip_open_def zip_read_def reader_load_def read_parquet_def write_parquet_def
  by (rule keeps_collaborator; auto split: option.splits if_splits blob.splits)+

lemma keeps_objects_prims:
  "keeps objects (bucket_exists b)"
  "keeps objects (make_bucket b)"
  "keeps objects (object_exists b k)"
  "keeps objects (read_parquet path)"
  "keeps objects (create_or_replace_temp_view n df)"
  unfolding bucket_exists_def make_bucket_def object_exists_def read_parquet_def
    create_or_replace_temp_view_def
  by (rule keeps_collaborator; auto split: option.splits if_splits blob.splits)+

lemma keeps_views_upload_entries: "keeps views (upload_entries mo dp z names acc)"
proof (induction names arbitrary: acc)
  case Nil
  show ?case unfolding upload_entries_Nil by (rule keeps_return)
next
  case (Cons n names)
  show ?case unfolding upload_entries_Cons
    by (intro keeps_bind keeps_views_prims Cons.IH)
qed

lemma keeps_views_extract: "keeps views (extract_and_upload_zip mo dobj flag)"
  unfolding extract_and_upload_zip_def Let_def
  by (intro keeps_bind keeps_views_prims keeps_views_upload_entries)

lemma keeps_views_read_csv: "keeps views (read_csv_to_dataframe b p d fmt oa)"
  unfolding read_csv_unfold by (rule keeps_views_prims)

lemma fail_keeps_bind:
  assumes "keeps sel m" and "\<And>x. fail_keeps sel (f x)"
  shows "fail_keeps sel (bindE m f)"
  using assms unfolding keeps_def fail_keeps_def bindE_def
  by (auto split: prod.splits sum.splits) (metis fst_conv snd_conv)+

lemma fail_keeps_publish:
  "fail_keeps views (bindE (create_or_replace_temp_view n df) (\<lambda>_. returnE x))"
  unfolding fail_keeps_def bindE_def returnE_def create_or_replace_temp_view_def collaborator_def
  by (auto split: prod.splits sum.splits option.splits)



lemma fail_keeps_views_ingest: "fail_keeps views (ingest_file_to_datalake b p dst tv d oa)"
  unfolding ingest_file_to_datalake_def Let_def read_parquet_to_dataframe_def dataframe_to_parquet_def
  by (intro fail_keeps_bind fail_keeps_publish keeps_bind keeps_if keeps_return keeps_views_prims
        keeps_views_extract keeps_views_read_csv)



text \<open>Evaluating a run in a concrete world.\<close>

lemmas run_eval = ingest_file_to_datalake_def extract_and_upload_zip_def
  extract_and_upload_zip_by_prefix_def read_csv_unfold read_parquet_to_dataframe_def
  dataframe_to_parquet_def destination_prefix_of_def namelist_def
  bindE_def returnE_def collaborator_def
  bucket_exists_def make_bucket_def object_exists_def get_object_def put_object_def
  list_objects_def zip_open_def zip_read_def reader_load_def read_parquet_def write_parquet_def
  create_or_replace_temp_view_def
  s3a_resolve_def s3a_path_def files_under_def default_option_args_def no_faults_def
  parquet_object_name_def splitext_eval endswith_def suffix_to_prefix calls_since_def Let_def


section \<open>The derived canonical key\<close>



section \<open>The tabular loader\<close>

text \<open>
  Claim C8. A load makes one reader call. The options it is given are the caller's, or
  \<open>header = true\<close> and \<open>inferSchema = true\<close> when the caller gave none, followed by the
  delimiter; being set last, the delimiter parameter is the value in effect even when
  the caller's options contain a \<open>delimiter\<close> key. The path is \<open>s3a://bucket/prefix\<close>.
\<close>

theorem loader_option_handling:
  "map fst (calls_since w (snd (read_csv_to_dataframe b p d fmt oa w))) =
     [ReaderLoad fmt
        ((case oa of None \<Rightarrow> [(''header'', ''true''), (''inferSchema'', ''true'')]
                   | Some given \<Rightarrow> given) @ [(''delimiter'', d)])
        (''s3a://'' @ b @ ''/'' @ p)]
   \<and> map fst (calls_since w (snd (read_csv_to_dataframe b p d fmt None w))) =
     [ReaderLoad fmt [(''header'', ''true''), (''inferSchema'', ''true''), (''delimiter'', d)]
        (''s3a://'' @ b @ ''/'' @ p)]
   \<and> effective_option (given @ [(''delimiter'', d)]) ''delimiter'' = Some d
   \<and> effective_option ([(''delimiter'', other)] @ [(''delimiter'', d)]) ''delimiter'' = Some d"
proof -
  have one: "map fst (calls_since w (snd (read_csv_to_dataframe b p d fmt oa' w))) =
     [ReaderLoad fmt
        ((case oa' of None \<Rightarrow> default_option_args | Some given \<Rightarrow> given) @ [(''delimiter'', d)])
        (s3a_path b p)]" for oa'
  proof -
    obtain r w' where run: "read_csv_to_dataframe b p d fmt oa' w = (r, w')"
      by (cases "read_csv_to_dataframe b p d fmt oa' w")
    from read_csv_effect[OF run] show ?thesis
      by (auto simp: run calls_since_def)
  qed
  show ?thesis
    using one[of oa] one[of None]
    by (simp add: default_option_args_def s3a_path_def effective_option_def split: option.splits)
qed


section \<open>Publishing, and runs that raise\<close>

lemma run_shape_raised:
  assumes "run_shape r evs" and "(c, Raised e) \<in> set evs"
  shows "r = Inl e \<and> evs \<noteq> [] \<and> last evs = (c, Raised e)
         \<and> list_all (\<lambda>ev. snd ev = Returned) (butlast evs)"
proof (cases r)
  case (Inr x)
  with assms show ?thesis by (auto simp: run_shape_def list_all_iff)
next
  case (Inl e')
  with assms(1) have ne: "evs \<noteq> []" and bl: "list_all (\<lambda>ev. snd ev = Returned) (butlast evs)"
    and la: "snd (last evs) = Raised e'" by (auto simp: run_shape_def)
  from ne have "evs = butlast evs @ [last evs]" by simp
  with assms(2) have "(c, Raised e) \<in> set (butlast evs) \<or> (c, Raised e) = last evs"
    by (metis Un_iff empty_iff empty_set set_ConsD set_append)
  with bl have eq: "last evs = (c, Raised e)" by (auto simp: list_all_iff)
  with la have "e' = e" by simp
  with eq Inl ne bl show ?thesis by simp
qed


text \<open>
  Claim C7. If any collaborator call of an ingestion call raises an error, the call
  returns that very error, the raising call is the last one made (every earlier call
  returned, none follows), and the views of the session are what they were before.
\<close>

theorem no_partial_publish:
  assumes run: "ingest_file_to_datalake b p dst tv d oa w = (r, w')"
    and raised: "(c, Raised e) \<in> set (calls_since w w')"
  shows "r = Inl e \<and> views w' = views w
         \<and> last (calls_since w w') = (c, Raised e)
         \<and> list_all (\<lambda>ev. snd ev = Returned) (butlast (calls_since w w'))"
proof -
  from emits_D(3)[OF emits_ingest run] raised
  have shape: "r = Inl e \<and> calls_since w w' \<noteq> [] \<and> last (calls_since w w') = (c, Raised e)
         \<and> list_all (\<lambda>ev. snd ev = Returned) (butlast (calls_since w w'))"
    by (rule run_shape_raised)
  with fail_keeps_views_ingest[unfolded fail_keeps_def, rule_format, of b p dst tv d oa w e] run
  show ?thesis by simp
qed

lemma missing_source_run:
  "ingest_file_to_datalake ''raw'' ''data.csv'' ''stage'' None '','' None missing_source_world =
     (Inl EngineLoadError,
      missing_source_world\<lparr>buckets := [''raw'', ''stage''],
        trace := [(BucketExists ''stage'', Returned), (MakeBucket ''stage'', Returned),
                  (ObjectExists ''stage'' ''data.parquet'', Returned),
                  (ReaderLoad ''csv'' [(''header'', ''true''), (''inferSchema'', ''true''), (''delimiter'', '','')]
                     ''s3a://raw/data.csv'', Raised EngineLoadError)]\<rparr>)"
  by (simp add: missing_source_world_def run_eval)


theorem no_partial_publish_witness:
  "(ReaderLoad ''csv'' [(''header'', ''true''), (''inferSchema'', ''true''), (''delimiter'', '','')]
      ''s3a://raw/data.csv'', Raised EngineLoadError)
     \<in> set (calls_since missing_source_world
          (snd (ingest_file_to_datalake ''raw'' ''data.csv'' ''stage'' None '','' None
                  missing_source_world)))
   \<and> fst (ingest_file_to_datalake ''raw'' ''data.csv'' ''stage'' None '','' None
             missing_source_world) = Inl EngineLoadError
   \<and> views (snd (ingest_file_to_datalake ''raw'' ''data.csv'' ''stage'' None '','' None
                  missing_source_world)) = views missing_source_world"
  using no_partial_publish[OF missing_source_run, of
     "ReaderLoad ''csv'' [(''header'', ''true''), (''inferSchema'', ''true''), (''delimiter'', '','')]
        ''s3a://raw/data.csv''"
     EngineLoadError]
  unfolding missing_source_run
  by (simp add: calls_since_def missing_source_world_def)





section \<open>The cache-hit path\<close>

lemma bindE_keeps_cong:
  assumes "keeps sel m" and "\<And>x w1. sel w1 = sel w \<Longrightarrow> f x w1 = g x w1"
  shows "bindE m f w = bindE m g w"
proof -
  obtain r w1 where mw: "m w = (r, w1)" by (cases "m w")
  with assms(1) have "sel w1 = sel w" by (auto simp: keeps_def dest: spec[of _ w])
  with assms(2) mw show ?thesis by (cases r) (auto simp: bindE_def)
qed

lemma object_exists_known:
  "bindE (object_exists b k) f w =
   bindE (object_exists b k) (\<lambda>_. f (map_of (objects w) (b, k) \<noteq> None)) w"
  by (auto simp: bindE_def object_exists_def collaborator_def split: option.splits)

lemma ingest_hit_unfold:
  assumes hit: "map_of (objects w) (dst, parquet_object_name p) \<noteq> None"
  shows "ingest_file_to_datalake b p dst tv d oa w =
     bindE (bucket_exists dst) (\<lambda>bucket_there.
     bindE (if \<not> bucket_there then make_bucket dst else returnE ()) (\<lambda>_.
     bindE (object_exists dst (parquet_object_name p)) (\<lambda>_.
     bindE (read_parquet (s3a_path dst (parquet_object_name p))) (\<lambda>df.
     bindE (create_or_replace_temp_view
              (case tv of None \<Rightarrow> fst (splitext p) | Some given \<Rightarrow> given) df) (\<lambda>_.
     returnE df))))) w"
  unfolding ingest_file_to_datalake_def Let_def read_parquet_to_dataframe_def
  apply (rule bindE_keeps_cong[where sel = objects])
   apply (rule keeps_objects_prims)
  apply (rule bindE_keeps_cong[where sel = objects])
   apply (intro keeps_if keeps_return keeps_objects_prims)
  apply (subst object_exists_known)
  apply (simp add: hit)
  done


lemma hit_frame:
  assumes hit: "map_of (objects w) (dst, parquet_object_name p) \<noteq> None"
    and run: "ingest_file_to_datalake b p dst tv d oa w = (r, w')"
  shows "objects w' = objects w"
    and "buckets w' = buckets w \<or> (dst \<notin> set (buckets w) \<and> buckets w' = buckets w @ [dst])"
    and "buckets w' \<noteq> buckets w \<longrightarrow>
           (\<exists>rest. calls_since w w' = (BucketExists dst, Returned) # (MakeBucket dst, Returned) # rest
                  \<and> list_all (\<lambda>ev. fst ev \<noteq> MakeBucket dst) rest)"
    and "\<forall>df. r = Inr df \<longrightarrow> map fst (calls_since w w') =
           [BucketExists dst] @ (if dst \<in> set (buckets w) then [] else [MakeBucket dst]) @
           [ObjectExists dst (parquet_object_name p),
            ReadParquet (s3a_path dst (parquet_object_name p)),
            CreateOrReplaceTempView (case tv of None \<Rightarrow> fst (splitext p) | Some given \<Rightarrow> given) df]"
  using run unfolding ingest_hit_unfold[OF hit]
  by (auto elim!: bindE_elim returnE_elim bucket_exists_elim make_bucket_elim object_exists_elim
       read_parquet_elim create_view_elim simp: calls_since_def split: if_splits)


lemma cache_hit_call_kinds:
  "cache_hit_call dst k c \<Longrightarrow> \<not> is_extraction c \<and> \<not> is_csv_read c \<and> \<not> is_persist c"
  by (cases c) auto

lemma hit_emits:
  assumes hit: "map_of (objects w) (dst, parquet_object_name p) \<noteq> None"
    and run: "ingest_file_to_datalake b p dst tv d oa w = (r, w')"
  shows "list_all (\<lambda>ev. cache_hit_call dst (parquet_object_name p) (fst ev)) (calls_since w w')"
proof -
  have "emits (cache_hit_call dst (parquet_object_name p))
     (bindE (bucket_exists dst) (\<lambda>bucket_there.
      bindE (if \<not> bucket_there then make_bucket dst else returnE ()) (\<lambda>_.
      bindE (object_exists dst (parquet_object_name p)) (\<lambda>_.
      bindE (read_parquet (s3a_path dst (parquet_object_name p))) (\<lambda>df.
      bindE (create_or_replace_temp_view
               (case tv of None \<Rightarrow> fst (splitext p) | Some given \<Rightarrow> given) df) (\<lambda>_.
      returnE df))))))"
    by (intro emits_bind emits_if emits_prims emits_return) simp_all
  from emits_D(2)[OF this run[unfolded ingest_hit_unfold[OF hit]]] show ?thesis .
qed


text \<open>
  Claim C1. When the derived canonical artifact exists in the destination bucket at the
  time of the call, the ingestion call makes no extraction call (no fetch of the source,
  no ZIP read, no upload, no listing), no CSV load and no columnar write, whatever
  fails: every call it makes is the bucket check or creation, the cache check, the
  columnar read of the artifact or the view registration. When it returns, its calls are
  exactly these, in this order, with one read of the artifact and nothing that inspects
  its contents.
\<close>

theorem cache_hit_only_loads:
  assumes hit: "map_of (objects w) (dst, parquet_object_name p) \<noteq> None"
    and run: "ingest_file_to_datalake b p dst tv d oa w = (r, w')"
  shows "list_all (\<lambda>ev. cache_hit_call dst (parquet_object_name p) (fst ev)) (calls_since w w')
     \<and> list_all (\<lambda>ev. \<not> is_extraction (fst ev) \<and> \<not> is_csv_read (fst ev) \<and> \<not> is_persist (fst ev))
         (calls_since w w')
     \<and> (\<forall>df. r = Inr df \<longrightarrow> map fst (calls_since w w') =
           [BucketExists dst] @ (if dst \<in> set (buckets w) then [] else [MakeBucket dst]) @
           [ObjectExists dst (parquet_object_name p),
            ReadParquet (s3a_path dst (parquet_object_name p)),
            CreateOrReplaceTempView (case tv of None \<Rightarrow> fst (splitext p) | Some given \<Rightarrow> given) df])"
proof -
  have allowed: "list_all (\<lambda>ev. cache_hit_call dst (parquet_object_name p) (fst ev)) (calls_since w w')"
    using hit run by (rule hit_emits)
  then have "list_all (\<lambda>ev. \<not> is_extraction (fst ev) \<and> \<not> is_csv_read (fst ev) \<and> \<not> is_persist (fst ev))
         (calls_since w w')"
    by (auto simp: list_all_iff dest: cache_hit_call_kinds)
  with allowed hit_frame(4)[OF hit run] show ?thesis by blast
qed


lemma cached_world_hit:
  "map_of (objects cached_world) (''stage'', parquet_object_name ''batch.zip'') =
     Some (Columnar (''csv'', [(''delimiter'', '','')], [(''batch.csv'', Raw ''id,qty'')]))"
  by (simp add: cached_world_def parquet_object_name_def splitext_eval)

lemma cached_world_run:
  "fst (ingest_file_to_datalake ''raw'' ''batch.zip'' ''stage'' None '','' None cached_world) =
     Inr (''csv'', [(''delimiter'', '','')], [(''batch.csv'', Raw ''id,qty'')])"
  by (simp add: cached_world_def run_eval)

theorem cache_hit_only_loads_witness:
  "map_of (objects cached_world) (''stage'', parquet_object_name ''batch.zip'') \<noteq> None
   \<and> map fst (calls_since cached_world
        (snd (ingest_file_to_datalake ''raw'' ''batch.zip'' ''stage'' None '','' None cached_world))) =
       [BucketExists ''stage'', ObjectExists ''stage'' ''batch.parquet'',
        ReadParquet ''s3a://stage/batch.parquet'',
        CreateOrReplaceTempView ''batch''
          (''csv'', [(''delimiter'', '','')], [(''batch.csv'', Raw ''id,qty'')])]"
proof -
  have hit: "map_of (objects cached_world) (''stage'', parquet_object_name ''batch.zip'') \<noteq> None"
    by (simp add: cached_world_hit)
  have run: "ingest_file_to_datalake ''raw'' ''batch.zip'' ''stage'' None '','' None cached_world =
     (Inr (''csv'', [(''delimiter'', '','')], [(''batch.csv'', Raw ''id,qty'')]),
      snd (ingest_file_to_datalake ''raw'' ''batch.zip'' ''stage'' None '','' None cached_world))"
    using cached_world_run by (simp add: prod_eq_iff)
  from cache_hit_only_loads[OF hit run] hit show ?thesis
    by (simp add: cached_world_def parquet_object_name_def splitext_eval s3a_path_def)
qed

lemma s3a_resolve_path:
  assumes "CHR ''/'' \<notin> set b"
  shows "s3a_resolve (s3a_path b k) = Some (b, k)"
proof -
  have tw: "takeWhile (\<lambda>c. c \<noteq> CHR ''/'') (b @ CHR ''/'' # k) = b"
    using assms by (induction b) auto
  have dw: "dropWhile (\<lambda>c. c \<noteq> CHR ''/'') (b @ CHR ''/'' # k) = CHR ''/'' # k"
    using assms by (induction b) auto
  show ?thesis by (simp add: s3a_resolve_def s3a_path_def tw dw)
qed

lemma hit_succeeds:
  assumes art: "map_of (objects w) (dst, parquet_object_name p) = Some (Columnar df)"
    and nf: "faults w = no_faults" and slash: "CHR ''/'' \<notin> set dst"
  shows "fst (ingest_file_to_datalake b p dst tv d oa w) = Inr df"
proof -
  from art have hit: "map_of (objects w) (dst, parquet_object_name p) \<noteq> None" by simp
  show ?thesis
    unfolding ingest_hit_unfold[OF hit]
    by (simp add: bindE_def returnE_def collaborator_def bucket_exists_def make_bucket_def
          object_exists_def read_parquet_def create_or_replace_temp_view_def
          s3a_resolve_path[OF slash] nf no_faults_def art)
qed


text \<open>
  Claim C10. On a cache hit no object of the store is written or removed, the source
  object is never fetched or loaded, and the only change to the store is that the
  destination bucket may have been created; when it was, that was the second call,
  straight after the bucket check and so before the cache check. With no injected
  fault, a bucket name without \<open>/\<close> and a columnar artifact, the call returns the
  artifact's table, whether or not the source object exists.
\<close>

theorem cache_hit_frame:
  assumes hit: "map_of (objects w) (dst, parquet_object_name p) = Some x"
    and run: "ingest_file_to_datalake b p dst tv d oa w = (r, w')"
  shows "objects w' = objects w
     \<and> (buckets w' = buckets w \<or> (dst \<notin> set (buckets w) \<and> buckets w' = buckets w @ [dst]))
     \<and> (buckets w' \<noteq> buckets w \<longrightarrow>
           (\<exists>rest. calls_since w w' = (BucketExists dst, Returned) # (MakeBucket dst, Returned) # rest
                  \<and> list_all (\<lambda>ev. fst ev \<noteq> MakeBucket dst) rest))
     \<and> list_all (\<lambda>ev. \<not> is_extraction (fst ev) \<and> \<not> is_csv_read (fst ev) \<and> \<not> is_persist (fst ev))
         (calls_since w w')
     \<and> (\<forall>df. x = Columnar df \<and> faults w = no_faults \<and> CHR ''/'' \<notin> set dst \<longrightarrow> r = Inr df)"
proof -
  from hit have hit': "map_of (objects w) (dst, parquet_object_name p) \<noteq> None" by simp
  have "list_all (\<lambda>ev. \<not> is_extraction (fst ev) \<and> \<not> is_csv_read (fst ev) \<and> \<not> is_persist (fst ev))
         (calls_since w w')"
    using hit_emits[OF hit' run] by (auto simp: list_all_iff dest: cache_hit_call_kinds)
  moreover have "\<forall>df. x = Columnar df \<and> faults w = no_faults \<and> CHR ''/'' \<notin> set dst \<longrightarrow> r = Inr df"
    using hit_succeeds[of w dst p _ b tv d oa] hit run by auto
  ultimately show ?thesis
    using hit_frame(1-3)[OF hit' run] by blast
qed


theorem cache_hit_frame_witness:
  "map_of (objects cached_world) (''stage'', parquet_object_name ''batch.zip'') =
     Some (Columnar (''csv'', [(''delimiter'', '','')], [(''batch.csv'', Raw ''id,qty'')]))
   \<and> map_of (objects cached_world) (''raw'', ''batch.zip'') = None
   \<and> fst (ingest_file_to_datalake ''raw'' ''batch.zip'' ''stage'' None '','' None cached_world) =
       Inr (''csv'', [(''delimiter'', '','')], [(''batch.csv'', Raw ''id,qty'')])
   \<and> objects (snd (ingest_file_to_datalake ''raw'' ''batch.zip'' ''stage'' None '','' None cached_world))
       = objects cached_world
   \<and> buckets (snd (ingest_file_to_datalake ''raw'' ''batch.zip'' ''stage'' None '','' None cached_world))
       = buckets cached_world"
proof -
  have src: "map_of (objects cached_world) (''raw'', ''batch.zip'') = None"
    by (simp add: cached_world_def)
  have props: "faults cached_world = no_faults" "''stage'' \<in> set (buckets cached_world)"
    "CHR ''/'' \<notin> set ''stage''"
    by (simp_all add: cached_world_def)
  from cache_hit_frame[OF cached_world_hit surjective_pairing,
      of "''raw''" None "'',''" None] src props cached_world_hit
  show ?thesis by simp
qed


section \<open>Classification on a cache miss\<close>



















section \<open>Batch expansion\<close>












section \<open>Expanding an archive into its bucket\<close>

text \<open>
  Claim C4, at the input of the spec's flattening example. With \<open>extract_to_bucket\<close> the
  destination prefix is the bucket's name, used as a key prefix: the entries \<open>a.csv\<close> and
  \<open>sub/b.csv\<close> of \<open>B/pack.zip\<close> are written, byte for byte and one reference per entry,
  to the keys \<open>B/a.csv\<close> and \<open>B/sub/b.csv\<close> inside bucket \<open>B\<close>. Nothing is written at
  the root of the bucket, where the docstring of \<^verbatim>\<open>extract_and_upload_zip\<close> and the
  claim place the entries. Without the flag the prefix is the archive key with its
  extension stripped (\<open>pack\<close>), or the key of the destination object when one is given.
\<close>

theorem extract_to_bucket_flattening:
  "destination_prefix_of \<lparr>bucket_name = ''B'', name = ''pack.zip''\<rparr> None True = ''B''
   \<and> fst (extract_and_upload_zip \<lparr>bucket_name = ''B'', name = ''pack.zip''\<rparr> None True flatten_world)
       = Inr [\<lparr>bucket_name = ''B'', name = ''B/a.csv''\<rparr>,
              \<lparr>bucket_name = ''B'', name = ''B/sub/b.csv''\<rparr>]
   \<and> objects (snd (extract_and_upload_zip \<lparr>bucket_name = ''B'', name = ''pack.zip''\<rparr> None True
                     flatten_world))
       = [((''B'', ''pack.zip''), Archive [(''a.csv'', Raw ''A''), (''sub/b.csv'', Raw ''BB'')]),
          ((''B'', ''B/a.csv''), Raw ''A''),
          ((''B'', ''B/sub/b.csv''), Raw ''BB'')]
   \<and> map_of (objects (snd (extract_and_upload_zip \<lparr>bucket_name = ''B'', name = ''pack.zip''\<rparr>
                              None True flatten_world))) (''B'', ''a.csv'') = None
   \<and> map_of (objects (snd (extract_and_upload_zip \<lparr>bucket_name = ''B'', name = ''pack.zip''\<rparr>
                              None True flatten_world))) (''B'', ''sub/b.csv'') = None
   \<and> fst (extract_and_upload_zip \<lparr>bucket_name = ''B'', name = ''pack.zip''\<rparr> None False flatten_world)
       = Inr [\<lparr>bucket_name = ''B'', name = ''pack/a.csv''\<rparr>,
              \<lparr>bucket_name = ''B'', name = ''pack/sub/b.csv''\<rparr>]
   \<and> fst (extract_and_upload_zip \<lparr>bucket_name = ''B'', name = ''pack.zip''\<rparr>
             (Some \<lparr>bucket_name = ''B'', name = ''out''\<rparr>) False flatten_world)
       = Inr [\<lparr>bucket_name = ''B'', name = ''out/a.csv''\<rparr>,
              \<lparr>bucket_name = ''B'', name = ''out/sub/b.csv''\<rparr>]"
  by (simp add: flatten_world_def run_eval)

section \<open>The end-to-end scenario\<close>

text \<open>
  Claim C3, at the scenario of the spec. The call creates \<open>stage\<close>, finds no artifact,
  fetches and opens \<open>batch.zip\<close> and uploads its entry to the key \<open>raw/rows.csv\<close> of
  bucket \<open>raw\<close>; it then loads \<open>s3a://raw/batch\<close>, where no object is, and the load
  raises. No artifact \<open>stage/batch.parquet\<close> is written and no view \<open>batch\<close> is
  registered.
\<close>

theorem zip_ingestion_scenario:
  "fst (ingest_file_to_datalake ''raw'' ''batch.zip'' ''stage'' None '','' None scenario_world)
     = Inl EngineLoadError
   \<and> buckets (snd (ingest_file_to_datalake ''raw'' ''batch.zip'' ''stage'' None '','' None
                     scenario_world)) = [''raw'', ''stage'']
   \<and> map fst (objects (snd (ingest_file_to_datalake ''raw'' ''batch.zip'' ''stage'' None '','' None
                     scenario_world))) = [(''raw'', ''batch.zip''), (''raw'', ''raw/rows.csv'')]
   \<and> map fst (trace (snd (ingest_file_to_datalake ''raw'' ''batch.zip'' ''stage'' None '','' None
                     scenario_world)))
       = [BucketExists ''stage'', MakeBucket ''stage'', ObjectExists ''stage'' ''batch.parquet'',
          GetObject ''raw'' ''batch.zip'', ZipOpen, ZipRead ''rows.csv'',
          PutObject ''raw'' ''raw/rows.csv''
            (Raw (''1,a'' @ [CHR 0x0A] @ ''2,b'' @ [CHR 0x0A] @ ''3,c'' @ [CHR 0x0A])),
          ReaderLoad ''csv'' [(''header'', ''true''), (''inferSchema'', ''true''), (''delimiter'', '','')]
            ''s3a://raw/batch'']
   \<and> files_under ''raw'' ''batch''
        (snd (ingest_file_to_datalake ''raw'' ''batch.zip'' ''stage'' None '','' None scenario_world))
       = []
   \<and> map_of (objects (snd (ingest_file_to_datalake ''raw'' ''batch.zip'' ''stage'' None '','' None
                     scenario_world))) (''stage'', ''batch.parquet'') = None
   \<and> views (snd (ingest_file_to_datalake ''raw'' ''batch.zip'' ''stage'' None '','' None
                     scenario_world)) ''batch'' = None"
  by (simp add: scenario_world_def run_eval)


text \<open>
  The archive path does go through when the bucket is named like the archive's base
  name, because then the key prefix written by the expansion and the folder that is
  loaded coincide: the failure above comes from the two names, not from the steps.
\<close>

lemma zip_ingestion_coinciding_names:
  "fst (ingest_file_to_datalake ''batch'' ''batch.zip'' ''stage'' None '','' None coinciding_world)
     = Inr (''csv'', [(''header'', ''true''), (''inferSchema'', ''true''), (''delimiter'', '','')],
            [(''batch/rows.csv'',
              Raw (''1,a'' @ [CHR 0x0A] @ ''2,b'' @ [CHR 0x0A] @ ''3,c'' @ [CHR 0x0A]))])
   \<and> map_of (objects (snd (ingest_file_to_datalake ''batch'' ''batch.zip'' ''stage'' None '','' None
                     coinciding_world))) (''stage'', ''batch.parquet'')
     = Some (Columnar (''csv'',
            [(''header'', ''true''), (''inferSchema'', ''true''), (''delimiter'', '','')],
            [(''batch/rows.csv'',
              Raw (''1,a'' @ [CHR 0x0A] @ ''2,b'' @ [CHR 0x0A] @ ''3,c'' @ [CHR 0x0A]))]))
   \<and> views (snd (ingest_file_to_datalake ''batch'' ''batch.zip'' ''stage'' None '','' None
                     coinciding_world)) ''batch''
     = Some (''csv'', [(''header'', ''true''), (''inferSchema'', ''true''), (''delimiter'', '','')],
            [(''batch/rows.csv'',
              Raw (''1,a'' @ [CHR 0x0A] @ ''2,b'' @ [CHR 0x0A] @ ''3,c'' @ [CHR 0x0A]))])"
  by (simp add: coinciding_world_def run_eval)

end
